theory Spec2Isabelle
  imports Main
begin

section \<open>A static-file HTTP server: the request handler of server.c\<close>

text \<open>
  The development embeds the request-handling functions of \<^verbatim>\<open>server.c\<close>:
  \<^verbatim>\<open>parse_request\<close>, \<^verbatim>\<open>supported_file\<close>, \<^verbatim>\<open>get_full_path\<close>,
  \<^verbatim>\<open>write_headers\<close>, \<^verbatim>\<open>get_length_bytes\<close>, \<^verbatim>\<open>write_content_length\<close>,
  \<^verbatim>\<open>read_write_file\<close>, \<^verbatim>\<open>construct_file_response\<close> and
  \<^verbatim>\<open>process_client_request\<close>.

  A C string is a \<open>string\<close>: the bytes before the terminating NUL. A \<^verbatim>\<open>size_t\<close> is a
  \<open>nat\<close>: every \<^verbatim>\<open>size_t\<close> of these functions is the length of a buffer in memory or
  a digit count, and the one subtraction that wraps around (\<^verbatim>\<open>strlen(saveptr)-1\<close> at
  length 0) is a branch of its own in \<open>parse_request\<close>. Allocation (\<^verbatim>\<open>malloc\<close>,
  \<^verbatim>\<open>strdup\<close>) is taken to succeed.
\<close>

subsection \<open>Constants of the source\<close>

abbreviation CR :: char where "CR \<equiv> CHR 0x0D"
abbreviation LF :: char where "LF \<equiv> CHR 0x0A"

definition found :: string where
  "found = ''%s 200 OK'' @ [CR, LF]"

definition content_header :: string where
  "content_header = ''Content-Type: %s'' @ [CR, LF]"

definition length_header :: string where
  "length_header = ''Content-Length: %s'' @ [CR, LF, CR, LF]"

definition not_found :: string where
  "not_found = ''%s 404 Not Found'' @ [CR, LF]"

definition not_supported :: string where
  "not_supported = ''Content-Type: application/octet-stream'' @ [CR, LF]"

definition no_content :: string where
  "no_content = ''Content-Length: 0'' @ [CR, LF, CR, LF]"

record file_properties =
  extension :: string
  mime_type :: string

definition file_map :: "file_properties list" where
  "file_map =
     [\<lparr>extension = ''.html'', mime_type = ''text/html''\<rparr>,
      \<lparr>extension = ''.jpg'', mime_type = ''image/jpeg''\<rparr>,
      \<lparr>extension = ''.css'', mime_type = ''text/css''\<rparr>,
      \<lparr>extension = ''.js'', mime_type = ''text/javascript''\<rparr>]"

record http_request =
  "method" :: string
  URI :: string
  httpversion :: string

text \<open>
  The status codes \<^verbatim>\<open>FOUND\<close> and \<^verbatim>\<open>NOT_FOUND\<close> come from \<^verbatim>\<open>server.h\<close>; the source only
  assigns and compares them, so they are two distinct values.
\<close>

datatype status_code = FOUND | NOT_FOUND

subsection \<open>The C library functions the source calls\<close>

text \<open>
  \<^verbatim>\<open>strtok_r(s, delim, &saveptr)\<close> skips the leading delimiters of \<open>s\<close>; when nothing
  is left it returns \<^verbatim>\<open>NULL\<close> and leaves the buffer alone. Otherwise the token runs to the
  next delimiter, which is overwritten with NUL, and \<open>saveptr\<close> points behind it (or at the
  final NUL when the token ends the string). The result is the token, the string at
  \<open>saveptr\<close>, and the string now found at \<open>s\<close>.
\<close>

definition strtok_r :: "string \<Rightarrow> string \<Rightarrow> string option \<times> string \<times> string" where
  "strtok_r s delim =
     (let s1 = dropWhile (\<lambda>c. c \<in> set delim) s in
      if s1 = [] then (None, [], s)
      else
        let tok = takeWhile (\<lambda>c. c \<notin> set delim) s1;
            endp = dropWhile (\<lambda>c. c \<notin> set delim) s1
        in if endp = [] then (Some tok, [], s)
           else (Some tok, tl endp, takeWhile (\<lambda>c. c \<in> set delim) s @ tok))"

text \<open>\<^verbatim>\<open>strrchr(s, c)\<close>: the suffix of \<open>s\<close> that starts at the last \<open>c\<close>, or \<^verbatim>\<open>NULL\<close>.\<close>

fun strrchr :: "string \<Rightarrow> char \<Rightarrow> string option" where
  "strrchr [] c = None"
| "strrchr (x # xs) c =
     (case strrchr xs c of
        Some r \<Rightarrow> Some r
      | None \<Rightarrow> if x = c then Some (x # xs) else None)"

text \<open>
  \<^verbatim>\<open>sprintf(buffer, fmt, data)\<close> for a format with at most one \<^verbatim>\<open>%s\<close> and no other
  conversion, which is what the header constants are.
\<close>

fun sprintf :: "string \<Rightarrow> string \<Rightarrow> string" where
  "sprintf [] data = []"
| "sprintf (c # fmt) data =
     (if c = CHR ''%'' \<and> take 1 fmt = ''s'' then data @ tl fmt
      else c # sprintf fmt data)"

text \<open>The conversion \<^verbatim>\<open>%zu\<close>: a \<^verbatim>\<open>size_t\<close> in decimal, without leading zeros.\<close>

definition digit :: "nat \<Rightarrow> char" where
  "digit d = ''0123456789'' ! d"

fun decimal :: "nat \<Rightarrow> string" where
  "decimal n = (if n < 10 then [digit n] else decimal (n div 10) @ [digit (n mod 10)])"

declare decimal.simps [simp del]

text \<open>
  \<^verbatim>\<open>snprintf(buf, size, "%zu", v)\<close> stores at most \<open>size - 1\<close> characters of the
  decimal text.
\<close>

definition snprintf_zu :: "nat \<Rightarrow> nat \<Rightarrow> string" where
  "snprintf_zu n v = take (n - 1) (decimal v)"

subsection \<open>The file system and the client socket\<close>

text \<open>
  A file as \<open>read_write_file\<close> sees it: whether \<^verbatim>\<open>fopen(path, "rb")\<close> may open it, the
  size \<^verbatim>\<open>ftell\<close> reports after seeking to the end, and the bytes \<^verbatim>\<open>fread\<close> can deliver
  from the start. The two differ when the file changes between the probe and the
  read. The file system maps a path to the file there.
\<close>

record stored_file =
  readable :: bool
  probe_size :: nat
  fread_data :: string

type_synonym filesystem = "string \<rightharpoonup> stored_file"

text \<open>\<^verbatim>\<open>access(path, F_OK) == 0\<close>: the path exists. No permission is tested.\<close>

definition access_F_OK :: "filesystem \<Rightarrow> string \<Rightarrow> bool" where
  "access_F_OK fs path = (fs path \<noteq> None)"

definition fopen_rb :: "filesystem \<Rightarrow> string \<Rightarrow> stored_file option" where
  "fopen_rb fs path =
     (case fs path of
        None \<Rightarrow> None
      | Some f \<Rightarrow> if readable f then Some f else None)"

text \<open>
  A call of \<^verbatim>\<open>write\<close> either fails (returns \<^verbatim>\<open>ERROR\<close>, the \<open>-1\<close> of the system call) or
  takes a number of bytes, at most the number offered. The connection carries what
  \<^verbatim>\<open>read\<close> will deliver (\<open>None\<close>: it fails), the bytes sent so far, the results of the
  coming \<^verbatim>\<open>write\<close> calls, one entry a call (past the end of the list every \<^verbatim>\<open>write\<close>
  takes all its bytes), and the number of \<^verbatim>\<open>close\<close> calls made on the descriptor.
\<close>

datatype write_result = WRITE_ERROR | WRITTEN nat

record conn =
  inbound :: "string option"
  sent :: string
  script :: "write_result list"
  closes :: nat

definition sock_write :: "conn \<Rightarrow> string \<Rightarrow> write_result \<times> conn" where
  "sock_write c buf =
     (case script c of
        [] \<Rightarrow> (WRITTEN (length buf), c\<lparr>sent := sent c @ buf\<rparr>)
      | WRITE_ERROR # rs \<Rightarrow> (WRITE_ERROR, c\<lparr>script := rs\<rparr>)
      | WRITTEN n # rs \<Rightarrow>
          (WRITTEN (min n (length buf)), c\<lparr>sent := sent c @ take n buf, script := rs\<rparr>))"

text \<open>
  \<^verbatim>\<open>read(client, buffer, count)\<close> stores at most \<open>count\<close> bytes; the result is the
  C string then found in \<open>buffer\<close>, or \<open>None\<close> when the call returns \<^verbatim>\<open>ERROR\<close>.
\<close>

definition sock_read :: "conn \<Rightarrow> nat \<Rightarrow> string option" where
  "sock_read c count = map_option (take count) (inbound c)"

definition sock_close :: "conn \<Rightarrow> conn" where
  "sock_close c = c\<lparr>closes := closes c + 1\<rparr>"

text \<open>
  How a call ends other than by returning: \<^verbatim>\<open>exit(EXIT_FAILURE)\<close>, which ends the
  whole process, and the two undefined behaviours of \<open>parse_request\<close>: \<^verbatim>\<open>strdup\<close> of
  a null pointer, and a store one byte before the start of an allocated block.
\<close>

datatype stop = EXIT_FAILURE | NULL_DEREFERENCE | OUT_OF_BOUNDS_WRITE

subsection \<open>parse_request\<close>

definition parse_request :: "string \<Rightarrow> stop + http_request" where
  "parse_request response =
     (let copy = response;
          (first_line, saveptr0, copy1) = strtok_r copy [LF];
          (path1, saveptr1, copy2) = strtok_r copy1 '' ''
      in case path1 of
           None \<Rightarrow> Inl NULL_DEREFERENCE
         | Some m \<Rightarrow>
             (let (path2, saveptr2, rest2) = strtok_r saveptr1 '' ''
              in case path2 of
                   None \<Rightarrow> Inl NULL_DEREFERENCE
                 | Some u \<Rightarrow>
                     if length saveptr2 = 0 then Inl OUT_OF_BOUNDS_WRITE
                     else Inr \<lparr>method = m, URI = u,
                               httpversion = take (length saveptr2 - 1) saveptr2\<rparr>))"

subsection \<open>supported_file and get_full_path\<close>

fun supported_in :: "file_properties list \<Rightarrow> string \<Rightarrow> bool" where
  "supported_in [] ext = False"
| "supported_in (fp # fps) ext =
     (if extension fp = ext then True else supported_in fps ext)"

definition supported_file :: "string \<Rightarrow> bool" where
  "supported_file ext = supported_in file_map ext"

definition get_full_path :: "filesystem \<Rightarrow> string \<Rightarrow> string \<Rightarrow> string \<times> status_code" where
  "get_full_path fs webroot path =
     (let full_path = webroot @ path;
          ext = strrchr full_path CHR ''.''
      in (full_path,
          case ext of
            None \<Rightarrow> NOT_FOUND
          | Some e \<Rightarrow>
              if access_F_OK fs full_path \<and> supported_file e then FOUND else NOT_FOUND))"

subsection \<open>Writing the response\<close>

definition write_headers :: "conn \<Rightarrow> string \<Rightarrow> string \<Rightarrow> (stop \<times> conn) + conn" where
  "write_headers client data defaults =
     (let buffer = sprintf defaults data
      in case sock_write client buffer of
           (WRITE_ERROR, c) \<Rightarrow> Inl (EXIT_FAILURE, c)
         | (WRITTEN n, c) \<Rightarrow> Inr c)"

function get_length_loop :: "nat \<Rightarrow> nat \<Rightarrow> nat" where
  "get_length_loop temp count =
     (if temp \<noteq> 0 then get_length_loop (temp div 10) (count + 1) else count)"
  by pat_completeness auto
termination
  by (relation "measure fst") auto

declare get_length_loop.simps [simp del]

definition get_length_bytes :: "nat \<Rightarrow> nat" where
  "get_length_bytes bytes = get_length_loop bytes 0"

definition write_content_length :: "conn \<Rightarrow> nat \<Rightarrow> (stop \<times> conn) + conn" where
  "write_content_length client bytes_read =
     (let length_bytes = get_length_bytes bytes_read;
          total_bytes = length length_header + length_bytes;
          content_length = snprintf_zu (total_bytes + 1) bytes_read
      in write_headers client content_length length_header)"

definition read_write_file :: "filesystem \<Rightarrow> conn \<Rightarrow> string \<Rightarrow> (stop \<times> conn) + conn" where
  "read_write_file fs client path =
     (case fopen_rb fs path of
        None \<Rightarrow> Inl (EXIT_FAILURE, client)
      | Some requested_file \<Rightarrow>
          (let file_size = probe_size requested_file;
               buffer_size = file_size;
               buffer = take file_size (fread_data requested_file);
               bytes_read = length buffer
           in if bytes_read = buffer_size then
                (case write_content_length client bytes_read of
                   Inl e \<Rightarrow> Inl e
                 | Inr c1 \<Rightarrow>
                     (case sock_write c1 (take bytes_read buffer) of
                        (WRITE_ERROR, c2) \<Rightarrow> Inl (EXIT_FAILURE, c2)
                      | (WRITTEN n, c2) \<Rightarrow> Inr c2))
              else Inr client))"

text \<open>
  The loop of \<open>construct_file_response\<close> over \<open>file_map\<close>: at the first entry whose
  extension is the requested one it writes the content type and stops. The result says
  whether an entry was found.
\<close>

fun content_type_loop ::
  "file_properties list \<Rightarrow> string \<Rightarrow> conn \<Rightarrow> (stop \<times> conn) + (bool \<times> conn)" where
  "content_type_loop [] ext client = Inr (False, client)"
| "content_type_loop (fp # fps) ext client =
     (if extension fp = ext then
        (case write_headers client (mime_type fp) content_header of
           Inl e \<Rightarrow> Inl e
         | Inr c \<Rightarrow> Inr (True, c))
      else content_type_loop fps ext client)"

definition construct_file_response ::
  "conn \<Rightarrow> string \<Rightarrow> string \<Rightarrow> string \<Rightarrow> (stop \<times> conn) + conn" where
  "construct_file_response client version path status =
     (case write_headers client version status of
        Inl e \<Rightarrow> Inl e
      | Inr c1 \<Rightarrow>
          (case strrchr path CHR ''.'' of
             None \<Rightarrow> Inr (snd (sock_write c1 not_supported))
           | Some requested_file_extension \<Rightarrow>
               (case content_type_loop file_map requested_file_extension c1 of
                  Inl e \<Rightarrow> Inl e
                | Inr (was_found, c2) \<Rightarrow>
                    if \<not> was_found then Inr (snd (sock_write c2 not_supported))
                    else Inr c2)))"

subsection \<open>process_client_request\<close>

text \<open>
  \<^verbatim>\<open>BUFFER_SIZE\<close> comes from \<^verbatim>\<open>server.h\<close> and the web root from the command line; both
  are parameters. The buffer is taken to hold a NUL behind the bytes that \<^verbatim>\<open>read\<close>
  stored.
\<close>

definition process_client_request ::
  "nat \<Rightarrow> string \<Rightarrow> filesystem \<Rightarrow> conn \<Rightarrow> (stop \<times> conn) + conn" where
  "process_client_request BUFFER_SIZE webroot fs client =
     (case sock_read client (BUFFER_SIZE - 1) of
        None \<Rightarrow> Inl (EXIT_FAILURE, client)
      | Some buffer \<Rightarrow>
          (case parse_request buffer of
             Inl e \<Rightarrow> Inl (e, client)
           | Inr request \<Rightarrow>
               (let (path, status) = get_full_path fs webroot (URI request)
                in if status = FOUND then
                     (case construct_file_response client (httpversion request) path found of
                        Inl e \<Rightarrow> Inl e
                      | Inr c1 \<Rightarrow>
                          (case read_write_file fs c1 path of
                             Inl e \<Rightarrow> Inl e
                           | Inr c2 \<Rightarrow> Inr (sock_close c2)))
                   else
                     (case construct_file_response client (httpversion request) path not_found of
                        Inl e \<Rightarrow> Inl e
                      | Inr c1 \<Rightarrow> Inr (sock_close (snd (sock_write c1 no_content)))))))"

subsection \<open>Auxiliary notions for the statements\<close>

text \<open>
  The \<^verbatim>\<open>Content-Type\<close> line that \<open>construct_file_response\<close> sends for a path when
  its writes succeed: the type of the first \<open>file_map\<close> entry with the path's extension,
  and the octet-stream line when the path has no dot or no entry has the extension.
\<close>

definition content_type_line :: "string \<Rightarrow> string" where
  "content_type_line path =
     (case strrchr path CHR ''.'' of
        None \<Rightarrow> not_supported
      | Some ext \<Rightarrow>
          (case find (\<lambda>fp. extension fp = ext) file_map of
             None \<Rightarrow> not_supported
           | Some fp \<Rightarrow> ''Content-Type: '' @ mime_type fp @ [CR, LF]))"

text \<open>
  The number a decimal text denotes, to read the value of a \<^verbatim>\<open>Content-Length\<close> header
  back.
\<close>

definition digit_value :: "char \<Rightarrow> nat" where
  "digit_value c = of_char c - 48"

definition decimal_value :: "string \<Rightarrow> nat" where
  "decimal_value s = foldl (\<lambda>a c. 10 * a + digit_value c) 0 s"

text \<open>The connection as a call leaves it, whether the call returns or stops.\<close>

definition final_conn :: "(stop \<times> conn) + conn \<Rightarrow> conn" where
  "final_conn r = (case r of Inl (s, c) \<Rightarrow> c | Inr c \<Rightarrow> c)"

text \<open>
  A web root used in the examples: a twelve-byte page, an empty style sheet, a page that
  exists but may not be opened for reading, and a script that was nine bytes long at the probe
  and delivers three. \<open>request_for\<close> is a fresh connection on which the given bytes
  arrive and every \<^verbatim>\<open>write\<close> takes all its bytes.
\<close>

definition example_fs :: filesystem where
  "example_fs =
     [''/srv/www/index.html'' \<mapsto> \<lparr>readable = True, probe_size = 12, fread_data = ''Hello world!''\<rparr>,
      ''/srv/www/empty.css'' \<mapsto> \<lparr>readable = True, probe_size = 0, fread_data = []\<rparr>,
      ''/srv/www/secret.html'' \<mapsto> \<lparr>readable = False, probe_size = 5, fread_data = ''12345''\<rparr>,
      ''/srv/www/cut.js'' \<mapsto> \<lparr>readable = True, probe_size = 9, fread_data = ''var''\<rparr>]"

definition request_for :: "string \<Rightarrow> conn" where
  "request_for bytes = \<lparr>inbound = Some bytes, sent = [], script = [], closes = 0\<rparr>"

text \<open>
  The HTTP version as the specification words it: the third whitespace-separated token of
  the first line of the request, with its trailing line terminator trimmed. The first line
  ends before the first LF; blanks and tabs separate tokens; the terminator left on the
  line is the CR.
\<close>

definition spec_first_line :: "string \<Rightarrow> string" where
  "spec_first_line s = takeWhile (\<lambda>c. c \<noteq> LF) s"

definition spec_whitespace :: "char \<Rightarrow> bool" where
  "spec_whitespace c = (c = CHR '' '' \<or> c = CHR 0x09)"

fun spec_tokens :: "string \<Rightarrow> string \<Rightarrow> string list" where
  "spec_tokens [] cur = (if cur = [] then [] else [cur])"
| "spec_tokens (c # cs) cur =
     (if spec_whitespace c then (if cur = [] then spec_tokens cs [] else cur # spec_tokens cs [])
      else spec_tokens cs (cur @ [c]))"

definition spec_trim_terminator :: "string \<Rightarrow> string" where
  "spec_trim_terminator t = (if t \<noteq> [] \<and> last t = CR then butlast t else t)"

definition spec_httpversion :: "string \<Rightarrow> string option" where
  "spec_httpversion s =
     (let ts = spec_tokens (spec_first_line s) []
      in if 3 \<le> length ts then Some (spec_trim_terminator (ts ! 2)) else None)"

section \<open>Properties of the library functions and of the helpers\<close>

lemma sprintf_found: "sprintf found v = v @ '' 200 OK'' @ [CR, LF]"
  by (simp add: found_def)

lemma sprintf_not_found: "sprintf not_found v = v @ '' 404 Not Found'' @ [CR, LF]"
  by (simp add: not_found_def)

lemma sprintf_content_header: "sprintf content_header m = ''Content-Type: '' @ m @ [CR, LF]"
  by (simp add: content_header_def)

lemma sprintf_length_header:
  "sprintf length_header d = ''Content-Length: '' @ d @ [CR, LF, CR, LF]"
  by (simp add: length_header_def)

lemma length_decimal_pos: "0 < length (decimal n)"
  by (subst decimal.simps) simp

lemma digit_value_digit: "d < 10 \<Longrightarrow> digit_value (digit d) = d"
proof -
  assume "d < 10"
  then consider "d = 0" | "d = 1" | "d = 2" | "d = 3" | "d = 4" | "d = 5" | "d = 6"
    | "d = 7" | "d = 8" | "d = 9"
    by atomize_elim arith
  then show ?thesis
    by cases (simp_all add: digit_value_def digit_def)
qed

lemma decimal_value_decimal: "decimal_value (decimal n) = n"
proof (induction n rule: decimal.induct)
  case (1 n)
  show ?case
  proof (cases "n < 10")
    case True
    then show ?thesis
      by (subst decimal.simps) (simp add: decimal_value_def digit_value_digit)
  next
    case False
    with 1 have "decimal_value (decimal (n div 10)) = n div 10" by simp
    with False show ?thesis
      by (subst decimal.simps) (simp add: decimal_value_def digit_value_digit)
  qed
qed

lemma get_length_loop_decimal:
  "get_length_loop temp count = count + (if temp = 0 then 0 else length (decimal temp))"
proof (induction temp count rule: get_length_loop.induct)
  case (1 temp count)
  show ?case
  proof (cases "temp = 0")
    case True
    then show ?thesis by (simp add: get_length_loop.simps)
  next
    case False
    show ?thesis
    proof (cases "temp < 10")
      case True
      with False 1 show ?thesis
        by (subst get_length_loop.simps, subst decimal.simps) simp
    next
      case ge: False
      then have "temp div 10 \<noteq> 0" by simp
      with False ge 1 show ?thesis
        by (subst get_length_loop.simps, subst decimal.simps) simp
    qed
  qed
qed

lemma get_length_bytes_decimal:
  "get_length_bytes n = (if n = 0 then 0 else length (decimal n))"
  by (simp add: get_length_bytes_def get_length_loop_decimal)

lemma snprintf_zu_fits:
  "snprintf_zu (length length_header + get_length_bytes n + 1) n = decimal n"
proof (cases "n = 0")
  case True
  then show ?thesis
    by (simp add: snprintf_zu_def get_length_bytes_decimal length_header_def decimal.simps)
next
  case False
  then show ?thesis
    by (simp add: snprintf_zu_def get_length_bytes_decimal)
qed

lemma strrchr_append_last:
  "c \<notin> set ys \<Longrightarrow> strrchr (xs @ c # ys) c = Some (c # ys)"
proof (induction xs)
  case Nil
  have "strrchr ys c = None" using Nil
    by (induction ys) (auto split: option.splits)
  then show ?case by simp
next
  case (Cons x xs)
  then show ?case by simp
qed

lemma strrchr_None_iff: "strrchr s c = None \<longleftrightarrow> c \<notin> set s"
  by (induction s) (auto split: option.splits)

lemma strrchr_Some_D:
  "strrchr s c = Some r \<Longrightarrow> \<exists>xs ys. s = xs @ c # ys \<and> r = c # ys \<and> c \<notin> set ys"
proof (induction s arbitrary: r)
  case Nil
  then show ?case by simp
next
  case (Cons x s)
  show ?case
  proof (cases "strrchr s c")
    case None
    with Cons.prems have "x = c" "r = x # s" by (auto split: if_splits)
    moreover from None have "c \<notin> set s" by (simp add: strrchr_None_iff)
    ultimately show ?thesis by (intro exI [of _ "[]"] exI [of _ s]) simp
  next
    case (Some r')
    with Cons.prems have "r = r'" by simp
    with Some Cons.IH obtain xs ys where "s = xs @ c # ys" "r = c # ys" "c \<notin> set ys"
      by blast
    then show ?thesis by (intro exI [of _ "x # xs"] exI [of _ ys]) simp
  qed
qed

lemma sock_write_all:
  "script c = [] \<Longrightarrow> sock_write c buf = (WRITTEN (length buf), c\<lparr>sent := sent c @ buf\<rparr>)"
  by (simp add: sock_write_def)

lemma write_headers_all:
  "script c = [] \<Longrightarrow> write_headers c d f = Inr (c\<lparr>sent := sent c @ sprintf f d\<rparr>)"
  by (simp add: write_headers_def sock_write_all)

lemma content_type_loop_all:
  "script c = [] \<Longrightarrow>
   content_type_loop fm ext c =
     (case find (\<lambda>fp. extension fp = ext) fm of
        None \<Rightarrow> Inr (False, c)
      | Some fp \<Rightarrow> Inr (True, c\<lparr>sent := sent c @ ''Content-Type: '' @ mime_type fp @ [CR, LF]\<rparr>))"
  by (induction fm) (simp_all add: write_headers_all sprintf_content_header)

lemma construct_file_response_all:
  assumes "script c = []"
  shows "construct_file_response c v path status =
           Inr (c\<lparr>sent := sent c @ sprintf status v @ content_type_line path\<rparr>)"
proof (cases "strrchr path CHR ''.''")
  case None
  with assms show ?thesis
    by (simp add: construct_file_response_def write_headers_all sock_write_all
        content_type_line_def)
next
  case (Some ext)
  with assms show ?thesis
    by (simp add: construct_file_response_def write_headers_all sock_write_all
        content_type_line_def content_type_loop_all split: option.splits)
qed

lemma closes_sock_write: "closes (snd (sock_write c buf)) = closes c"
  by (simp add: sock_write_def split: list.splits write_result.splits)

lemma closes_write_headers: "closes (final_conn (write_headers c d f)) = closes c"
proof (cases "sock_write c (sprintf f d)")
  case (Pair r c')
  with closes_sock_write [of c "sprintf f d"] show ?thesis
    by (cases r) (simp_all add: write_headers_def final_conn_def)
qed

lemma closes_content_type_loop:
  "(case content_type_loop fm ext c of Inl (s, c') \<Rightarrow> closes c' | Inr (b, c') \<Rightarrow> closes c')
     = closes c"
proof (induction fm)
  case Nil
  then show ?case by simp
next
  case (Cons fp fm)
  show ?case
  proof (cases "extension fp = ext")
    case True
    with closes_write_headers [of c "mime_type fp" content_header] show ?thesis
      by (simp add: final_conn_def split: sum.splits prod.splits)
  next
    case False
    with Cons show ?thesis by simp
  qed
qed

lemma closes_construct_file_response:
  "closes (final_conn (construct_file_response c v path status)) = closes c"
proof (cases "write_headers c v status")
  case (Inl e)
  with closes_write_headers [of c v status] show ?thesis
    by (simp add: construct_file_response_def final_conn_def split: prod.splits)
next
  case (Inr c1)
  with closes_write_headers [of c v status] have c1: "closes c1 = closes c"
    by (simp add: final_conn_def)
  show ?thesis
  proof (cases "strrchr path CHR ''.''")
    case None
    with Inr c1 closes_sock_write [of c1 not_supported] show ?thesis
      by (simp add: construct_file_response_def final_conn_def)
  next
    case (Some ext)
    with Inr c1 closes_content_type_loop [of file_map ext c1]
    show ?thesis
      by (auto simp: construct_file_response_def final_conn_def closes_sock_write
          split: sum.splits prod.splits)
  qed
qed

lemma closes_write_content_length:
  "closes (final_conn (write_content_length c n)) = closes c"
  by (simp add: write_content_length_def Let_def closes_write_headers)

lemma read_write_file_opened:
  assumes "fopen_rb fs path = Some f"
  shows "read_write_file fs c path =
     (if probe_size f \<le> length (fread_data f) then
        (case write_content_length c (probe_size f) of
           Inl e \<Rightarrow> Inl e
         | Inr c1 \<Rightarrow>
             (case sock_write c1 (take (probe_size f) (fread_data f)) of
                (WRITE_ERROR, c2) \<Rightarrow> Inl (EXIT_FAILURE, c2)
              | (WRITTEN n, c2) \<Rightarrow> Inr c2))
      else Inr c)"
proof (cases "probe_size f \<le> length (fread_data f)")
  case True
  then have "min (length (fread_data f)) (probe_size f) = probe_size f" by simp
  with assms True show ?thesis
    by (simp add: read_write_file_def Let_def cong: sum.case_cong)
next
  case False
  then have "min (length (fread_data f)) (probe_size f) \<noteq> probe_size f" by simp
  with assms False show ?thesis by (simp add: read_write_file_def Let_def)
qed

lemma closes_read_write_file:
  "closes (final_conn (read_write_file fs c path)) = closes c"
proof (cases "fopen_rb fs path")
  case None
  then show ?thesis by (simp add: read_write_file_def final_conn_def)
next
  case (Some f)
  let ?buf = "take (probe_size f) (fread_data f)"
  show ?thesis
  proof (cases "probe_size f \<le> length (fread_data f)")
    case False
    with Some show ?thesis by (simp add: read_write_file_opened final_conn_def)
  next
    case True
    show ?thesis
    proof (cases "write_content_length c (probe_size f)")
      case (Inl e)
      with Some True closes_write_content_length [of c "probe_size f"] show ?thesis
        by (simp add: read_write_file_opened final_conn_def)
    next
      case (Inr c1)
      with closes_write_content_length [of c "probe_size f"] have c1: "closes c1 = closes c"
        by (simp add: final_conn_def)
      obtain r c2 where w: "sock_write c1 ?buf = (r, c2)"
        by (cases "sock_write c1 ?buf")
      with closes_sock_write [of c1 ?buf] c1 have "closes c2 = closes c"
        by simp
      with Some True Inr w show ?thesis
        by (cases r) (simp_all add: read_write_file_opened final_conn_def)
    qed
  qed
qed

lemma supported_in_find:
  "supported_in fm ext \<longleftrightarrow> find (\<lambda>fp. extension fp = ext) fm \<noteq> None"
  by (induction fm) simp_all

lemma supported_file_iff:
  "supported_file ext \<longleftrightarrow> ext \<in> {''.html'', ''.jpg'', ''.css'', ''.js''}"
  unfolding supported_file_def file_map_def by simp

lemma file_map_cases:
  assumes "fp \<in> set file_map"
  obtains "fp = \<lparr>extension = ''.html'', mime_type = ''text/html''\<rparr>"
    | "fp = \<lparr>extension = ''.jpg'', mime_type = ''image/jpeg''\<rparr>"
    | "fp = \<lparr>extension = ''.css'', mime_type = ''text/css''\<rparr>"
    | "fp = \<lparr>extension = ''.js'', mime_type = ''text/javascript''\<rparr>"
  using assms unfolding file_map_def by (simp only: set_simps insert_iff empty_iff) blast

lemma find_file_map:
  assumes "fp \<in> set file_map"
  shows "find (\<lambda>q. extension q = extension fp) file_map = Some fp"
  using assms by (rule file_map_cases) (simp_all add: file_map_def)

lemma strrchr_extension:
  assumes "fp \<in> set file_map"
  shows "strrchr (stem @ extension fp) CHR ''.'' = Some (extension fp)"
  using assms by (rule file_map_cases) (simp_all add: strrchr_append_last)

lemma supported_file_extension:
  assumes "fp \<in> set file_map"
  shows "supported_file (extension fp)"
  using assms by (rule file_map_cases) (simp_all add: supported_file_iff)

lemma get_full_path_found:
  assumes "fp \<in> set file_map" and "fs (webroot @ name @ extension fp) \<noteq> None"
  shows "get_full_path fs webroot (name @ extension fp)
           = (webroot @ name @ extension fp, FOUND)"
proof -
  have "strrchr ((webroot @ name) @ extension fp) CHR ''.'' = Some (extension fp)"
    using assms(1) by (rule strrchr_extension)
  moreover have "supported_file (extension fp)"
    using assms(1) by (rule supported_file_extension)
  ultimately show ?thesis
    using assms(2) by (simp add: get_full_path_def access_F_OK_def)
qed

lemma content_type_line_extension:
  assumes "fp \<in> set file_map"
  shows "content_type_line (stem @ extension fp) = ''Content-Type: '' @ mime_type fp @ [CR, LF]"
  using assms by (simp add: content_type_line_def strrchr_extension find_file_map)

lemma process_client_request_parsed:
  assumes "sock_read client (BUFFER_SIZE - 1) = Some buffer"
    and "parse_request buffer = Inr request"
  shows "process_client_request BUFFER_SIZE webroot fs client =
     (if snd (get_full_path fs webroot (URI request)) = FOUND then
        (case construct_file_response client (httpversion request)
                (webroot @ URI request) found of
           Inl e \<Rightarrow> Inl e
         | Inr c1 \<Rightarrow>
             (case read_write_file fs c1 (webroot @ URI request) of
                Inl e \<Rightarrow> Inl e
              | Inr c2 \<Rightarrow> Inr (sock_close c2)))
      else
        (case construct_file_response client (httpversion request)
                (webroot @ URI request) not_found of
           Inl e \<Rightarrow> Inl e
         | Inr c1 \<Rightarrow> Inr (sock_close (snd (sock_write c1 no_content)))))"
  using assms by (simp add: process_client_request_def get_full_path_def Let_def)

lemma write_content_length_all:
  "script c = [] \<Longrightarrow>
   write_content_length c n =
     Inr (c\<lparr>sent := sent c @ ''Content-Length: '' @ decimal n @ [CR, LF, CR, LF]\<rparr>)"
  using snprintf_zu_fits [of n]
  by (simp add: write_content_length_def Let_def write_headers_all sprintf_length_header)

lemma read_write_file_all:
  assumes "fs path = Some f" and "readable f" and "probe_size f \<le> length (fread_data f)"
    and "script c = []"
  shows "read_write_file fs c path =
     Inr (c\<lparr>sent := sent c @ ''Content-Length: '' @ decimal (probe_size f) @ [CR, LF, CR, LF]
                  @ take (probe_size f) (fread_data f)\<rparr>)"
proof -
  from assms(1,2) have "fopen_rb fs path = Some f" by (simp add: fopen_rb_def)
  with assms(3,4) show ?thesis
    by (simp add: read_write_file_opened write_content_length_all sock_write_all)
qed

lemma found_response:
  assumes rd: "sock_read client (BUFFER_SIZE - 1) = Some buffer"
    and parse: "parse_request buffer = Inr request"
    and uri: "URI request = name @ extension fp"
    and fp: "fp \<in> set file_map"
    and ex: "fs (webroot @ name @ extension fp) = Some f"
    and perm: "readable f"
    and size: "probe_size f \<le> length (fread_data f)"
    and wr: "script client = []"
  shows "process_client_request BUFFER_SIZE webroot fs client =
     Inr (client\<lparr>sent := sent client @ httpversion request @ '' 200 OK'' @ [CR, LF]
                      @ ''Content-Type: '' @ mime_type fp @ [CR, LF]
                      @ ''Content-Length: '' @ decimal (probe_size f) @ [CR, LF, CR, LF]
                      @ take (probe_size f) (fread_data f),
                 closes := closes client + 1\<rparr>)"
proof -
  let ?path = "webroot @ name @ extension fp"
  have status: "get_full_path fs webroot (URI request) = (?path, FOUND)"
    using fp ex by (simp add: uri get_full_path_found)
  have ct: "content_type_line ?path = ''Content-Type: '' @ mime_type fp @ [CR, LF]"
    using content_type_line_extension [OF fp, of "webroot @ name"] by simp
  let ?c1 = "client\<lparr>sent := sent client @ httpversion request @ '' 200 OK'' @ [CR, LF]
                      @ ''Content-Type: '' @ mime_type fp @ [CR, LF]\<rparr>"
  have hdr: "construct_file_response client (httpversion request) ?path found = Inr ?c1"
    using wr by (simp add: construct_file_response_all sprintf_found ct)
  have "script ?c1 = []" using wr by simp
  then have body: "read_write_file fs ?c1 ?path =
      Inr (?c1\<lparr>sent := sent ?c1 @ ''Content-Length: '' @ decimal (probe_size f)
                   @ [CR, LF, CR, LF] @ take (probe_size f) (fread_data f)\<rparr>)"
    using ex perm size by (rule read_write_file_all [rotated 3])
  show ?thesis
    using status hdr body
    by (simp add: process_client_request_parsed [OF rd parse] uri sock_close_def)
qed

lemma strtok_r_token:
  assumes "t \<noteq> []" and "\<forall>c\<in>set t. c \<notin> set delim" and "d \<in> set delim"
  shows "strtok_r (t @ d # rest) delim = (Some t, rest, t)"
proof -
  from assms(1) obtain a t' where t: "t = a # t'" by (cases t) auto
  with assms(2) have a: "a \<notin> set delim" by simp
  have skip: "dropWhile (\<lambda>c. c \<in> set delim) (t @ d # rest) = t @ d # rest"
    using a by (simp add: t)
  have lead: "takeWhile (\<lambda>c. c \<in> set delim) (t @ d # rest) = []"
    using a by (simp add: t)
  have tok: "takeWhile (\<lambda>c. c \<notin> set delim) (t @ d # rest) = t"
    using assms(2,3) by (simp add: takeWhile_tail)
  have endp: "dropWhile (\<lambda>c. c \<notin> set delim) (t @ d # rest) = d # rest"
    using assms(2,3) by (simp add: dropWhile_append3)
  show ?thesis
    unfolding strtok_r_def Let_def skip tok endp lead using t by simp
qed

lemma parse_request_line:
  assumes m: "m \<noteq> []" "CHR '' '' \<notin> set m" "LF \<notin> set m"
    and u: "u \<noteq> []" "CHR '' '' \<notin> set u" "LF \<notin> set u"
    and v: "LF \<notin> set v"
  shows "parse_request (m @ '' '' @ u @ '' '' @ v @ [CR, LF] @ tail_bytes)
           = Inr \<lparr>method = m, URI = u, httpversion = v\<rparr>"
proof -
  let ?line = "m @ CHR '' '' # u @ CHR '' '' # v @ [CR]"
  have "?line \<noteq> []" using m(1) by simp
  moreover have "\<forall>c\<in>set ?line. c \<notin> set [LF]" using m(3) u(3) v by auto
  ultimately have s0: "strtok_r (?line @ LF # tail_bytes) [LF] = (Some ?line, tail_bytes, ?line)"
    by (rule strtok_r_token) simp
  have s1: "strtok_r (m @ CHR '' '' # (u @ CHR '' '' # v @ [CR])) '' ''
              = (Some m, u @ CHR '' '' # v @ [CR], m)"
    using m(1,2) by (intro strtok_r_token) auto
  have s2: "strtok_r (u @ CHR '' '' # (v @ [CR])) '' '' = (Some u, v @ [CR], u)"
    using u(1,2) by (intro strtok_r_token) auto
  have "parse_request (?line @ LF # tail_bytes) = Inr \<lparr>method = m, URI = u, httpversion = v\<rparr>"
    unfolding parse_request_def Let_def s0 prod.case s1 option.case s2 by simp
  then show ?thesis by simp
qed

lemma not_found_response:
  assumes rd: "sock_read client (BUFFER_SIZE - 1) = Some buffer"
    and parse: "parse_request buffer = Inr request"
    and status: "snd (get_full_path fs webroot (URI request)) = NOT_FOUND"
    and wr: "script client = []"
  shows "process_client_request BUFFER_SIZE webroot fs client =
     Inr (client\<lparr>sent := sent client @ httpversion request @ '' 404 Not Found'' @ [CR, LF]
                      @ content_type_line (webroot @ URI request)
                      @ ''Content-Length: 0'' @ [CR, LF, CR, LF],
                 closes := closes client + 1\<rparr>)"
proof -
  let ?path = "webroot @ URI request"
  let ?c1 = "client\<lparr>sent := sent client @ httpversion request @ '' 404 Not Found'' @ [CR, LF]
                      @ content_type_line ?path\<rparr>"
  have hdr: "construct_file_response client (httpversion request) ?path not_found = Inr ?c1"
    using wr by (simp add: construct_file_response_all sprintf_not_found)
  have "script ?c1 = []" using wr by simp
  then have w: "sock_write ?c1 no_content
      = (WRITTEN (length no_content), ?c1\<lparr>sent := sent ?c1 @ no_content\<rparr>)"
    by (rule sock_write_all)
  show ?thesis
    using status hdr w
    by (simp add: process_client_request_parsed [OF rd parse] sock_close_def no_content_def)
qed

lemma parse_missing:
  "parse_request (''GET /missing.html HTTP/1.1'' @ [CR, LF])
     = Inr \<lparr>method = ''GET'', URI = ''/missing.html'', httpversion = ''HTTP/1.1''\<rparr>"
  by (simp add: parse_request_def strtok_r_def Let_def)

lemma missing_not_found:
  "snd (get_full_path example_fs ''/srv/www'' ''/missing.html'') = NOT_FOUND"
  by (simp add: get_full_path_def access_F_OK_def example_fs_def)

lemma content_type_line_missing:
  "content_type_line (''/srv/www'' @ ''/missing.html'') = ''Content-Type: text/html'' @ [CR, LF]"
  by (simp add: content_type_line_def file_map_def)

lemma strrchr_supported_iff:
  "(\<exists>ext. strrchr p CHR ''.'' = Some ext \<and> supported_file ext)
     \<longleftrightarrow> (\<exists>stem ext. p = stem @ ext \<and> ext \<in> {''.html'', ''.jpg'', ''.css'', ''.js''})"
proof
  assume "\<exists>ext. strrchr p CHR ''.'' = Some ext \<and> supported_file ext"
  then obtain ext where e: "strrchr p CHR ''.'' = Some ext" and s: "supported_file ext"
    by blast
  from strrchr_Some_D [OF e] obtain xs where "p = xs @ ext" by blast
  with s show "\<exists>stem ext. p = stem @ ext \<and> ext \<in> {''.html'', ''.jpg'', ''.css'', ''.js''}"
    unfolding supported_file_iff by blast
next
  assume "\<exists>stem ext. p = stem @ ext \<and> ext \<in> {''.html'', ''.jpg'', ''.css'', ''.js''}"
  then obtain stem ext where p: "p = stem @ ext"
    and ext: "ext \<in> {''.html'', ''.jpg'', ''.css'', ''.js''}"
    by blast
  from ext have "strrchr (stem @ ext) CHR ''.'' = Some ext"
    by (elim insertE emptyE) (simp_all add: strrchr_append_last)
  moreover from ext have "supported_file ext" by (simp only: supported_file_iff)
  ultimately show "\<exists>ext. strrchr p CHR ''.'' = Some ext \<and> supported_file ext"
    using p by blast
qed

lemma read_write_file_short:
  assumes "fs path = Some f" and "readable f"
    and "length (take (probe_size f) (fread_data f)) \<noteq> probe_size f"
  shows "read_write_file fs c path = Inr c"
proof -
  from assms(1,2) have "fopen_rb fs path = Some f" by (simp add: fopen_rb_def)
  moreover from assms(3) have "\<not> probe_size f \<le> length (fread_data f)" by simp
  ultimately show ?thesis by (simp add: read_write_file_opened)
qed

lemma closes_process_client_request:
  "closes (final_conn (process_client_request BUFFER_SIZE webroot fs client)) =
     (case process_client_request BUFFER_SIZE webroot fs client of
        Inl e \<Rightarrow> closes client
      | Inr c \<Rightarrow> closes client + 1)"
proof (cases "sock_read client (BUFFER_SIZE - 1)")
  case None
  then show ?thesis by (simp add: process_client_request_def final_conn_def)
next
  case (Some buffer)
  show ?thesis
  proof (cases "parse_request buffer")
    case (Inl e)
    with Some show ?thesis by (simp add: process_client_request_def final_conn_def)
  next
    case (Inr request)
    let ?path = "webroot @ URI request"
    let ?v = "httpversion request"
    note unfold = process_client_request_parsed [OF Some Inr, of webroot fs]
    show ?thesis
    proof (cases "snd (get_full_path fs webroot (URI request)) = FOUND")
      case True
      show ?thesis
      proof (cases "construct_file_response client ?v ?path found")
        case (Inl e)
        with closes_construct_file_response [of client ?v ?path found] True show ?thesis
          by (simp add: unfold final_conn_def split: prod.splits)
      next
        case c1: (Inr c1)
        with closes_construct_file_response [of client ?v ?path found]
        have k1: "closes c1 = closes client" by (simp add: final_conn_def)
        show ?thesis
        proof (cases "read_write_file fs c1 ?path")
          case (Inl e)
          with closes_read_write_file [of fs c1 ?path] k1 c1 True show ?thesis
            by (simp add: unfold final_conn_def split: prod.splits)
        next
          case (Inr c2)
          with closes_read_write_file [of fs c1 ?path] k1 c1 True show ?thesis
            by (simp add: unfold final_conn_def sock_close_def)
        qed
      qed
    next
      case False
      show ?thesis
      proof (cases "construct_file_response client ?v ?path not_found")
        case (Inl e)
        with closes_construct_file_response [of client ?v ?path not_found] False show ?thesis
          by (simp add: unfold final_conn_def split: prod.splits)
      next
        case c1: (Inr c1)
        with closes_construct_file_response [of client ?v ?path not_found]
        have "closes c1 = closes client" by (simp add: final_conn_def)
        with closes_sock_write [of c1 no_content] c1 False show ?thesis
          by (simp add: unfold final_conn_def sock_close_def)
      qed
    qed
  qed
qed

lemma first_write_failure_exits:
  assumes rd: "sock_read client (BUFFER_SIZE - 1) = Some buffer"
    and parse: "parse_request buffer = Inr request"
    and wr: "script client = WRITE_ERROR # rs"
  shows "process_client_request BUFFER_SIZE webroot fs client
           = Inl (EXIT_FAILURE, client\<lparr>script := rs\<rparr>)"
proof -
  have "write_headers client v status = Inl (EXIT_FAILURE, client\<lparr>script := rs\<rparr>)"
    for v status
    using wr by (simp add: write_headers_def sock_write_def)
  then have "construct_file_response client v path status
      = Inl (EXIT_FAILURE, client\<lparr>script := rs\<rparr>)" for v path status
    by (simp add: construct_file_response_def)
  then show ?thesis
    by (simp add: process_client_request_parsed [OF rd parse])
qed

section \<open>The claims\<close>

subsection \<open>C1: a supported file that exists is served whole\<close>

text \<open>
  Claim C1. For each of the four supported extensions and every file with that extension
  that exists under the web root, can be opened for reading and is as long at the read as
  at the size probe: \<open>get_full_path\<close> answers \<^verbatim>\<open>FOUND\<close>, and when every \<^verbatim>\<open>write\<close>
  takes all its bytes \<open>process_client_request\<close> sends the \<^verbatim>\<open>200 OK\<close> status line,
  the content type of the extension, a \<^verbatim>\<open>Content-Length\<close> header whose value is the
  decimal length of the file, the blank line, and then exactly the bytes of the file; it
  closes the connection and returns.
\<close>

theorem found_file_served_with_exact_length:
  assumes "sock_read client (BUFFER_SIZE - 1) = Some buffer"
    and "parse_request buffer = Inr request"
    and "URI request = name @ extension fp"
    and "fp \<in> set file_map"
    and "fs (webroot @ name @ extension fp) = Some f"
    and "readable f"
    and "probe_size f = length (fread_data f)"
    and "script client = []"
  shows "get_full_path fs webroot (URI request) = (webroot @ URI request, FOUND) \<and>
         process_client_request BUFFER_SIZE webroot fs client =
           Inr (client\<lparr>sent := sent client @ httpversion request @ '' 200 OK'' @ [CR, LF]
                           @ ''Content-Type: '' @ mime_type fp @ [CR, LF]
                           @ ''Content-Length: '' @ decimal (length (fread_data f))
                           @ [CR, LF, CR, LF] @ fread_data f,
                      closes := closes client + 1\<rparr>)"
proof
  show "get_full_path fs webroot (URI request) = (webroot @ URI request, FOUND)"
    using assms(4,5) by (simp add: assms(3) get_full_path_found)
  have "probe_size f \<le> length (fread_data f)" using assms(7) by simp
  from found_response [where fs = fs and webroot = webroot, OF assms(1-6) this assms(8)]
  show "process_client_request BUFFER_SIZE webroot fs client =
           Inr (client\<lparr>sent := sent client @ httpversion request @ '' 200 OK'' @ [CR, LF]
                           @ ''Content-Type: '' @ mime_type fp @ [CR, LF]
                           @ ''Content-Length: '' @ decimal (length (fread_data f))
                           @ [CR, LF, CR, LF] @ fread_data f,
                      closes := closes client + 1\<rparr>)"
    by (simp add: assms(7))
qed

theorem found_file_served_with_exact_length_witness:
  "get_full_path example_fs ''/srv/www'' ''/index.html'' = (''/srv/www/index.html'', FOUND) \<and>
   process_client_request 1024 ''/srv/www'' example_fs
       (request_for (''GET /index.html HTTP/1.1'' @ [CR, LF])) =
     Inr \<lparr>inbound = Some (''GET /index.html HTTP/1.1'' @ [CR, LF]),
          sent = ''HTTP/1.1 200 OK'' @ [CR, LF] @ ''Content-Type: text/html'' @ [CR, LF]
                 @ ''Content-Length: 12'' @ [CR, LF, CR, LF] @ ''Hello world!'',
          script = [], closes = 1\<rparr>"
proof -
  let ?req = "\<lparr>method = ''GET'', URI = ''/index.html'', httpversion = ''HTTP/1.1''\<rparr>"
  let ?fp = "\<lparr>extension = ''.html'', mime_type = ''text/html''\<rparr>"
  let ?f = "\<lparr>readable = True, probe_size = 12, fread_data = ''Hello world!''\<rparr>"
  have h1: "sock_read (request_for (''GET /index.html HTTP/1.1'' @ [CR, LF])) (1024 - 1)
      = Some (''GET /index.html HTTP/1.1'' @ [CR, LF])"
    by (simp add: sock_read_def request_for_def)
  have h2: "parse_request (''GET /index.html HTTP/1.1'' @ [CR, LF]) = Inr ?req"
    by (simp add: parse_request_def strtok_r_def Let_def)
  have h3: "URI ?req = ''/index'' @ extension ?fp" by simp
  have h4: "?fp \<in> set file_map" by (simp add: file_map_def)
  have h5: "example_fs (''/srv/www'' @ ''/index'' @ extension ?fp) = Some ?f"
    by (simp add: example_fs_def)
  have h6: "readable ?f" by simp
  have h7: "probe_size ?f = length (fread_data ?f)" by simp
  have h8: "script (request_for (''GET /index.html HTTP/1.1'' @ [CR, LF])) = []"
    by (simp add: request_for_def)
  have d: "decimal (length (fread_data ?f)) = ''12''"
    by (simp add: decimal.simps digit_def)
  note served = found_file_served_with_exact_length
    [where fs = example_fs and webroot = "''/srv/www''", OF h1 h2 h3 h4 h5 h6 h7 h8,
      unfolded d]
  then show ?thesis by (simp add: request_for_def)
qed

subsection \<open>C2: the response to a request that is not found\<close>

text \<open>
  Claim C2 says that a not-found response is the status line and \<^verbatim>\<open>Content-Length: 0\<close>
  only. As amended: for every request that resolves to \<^verbatim>\<open>NOT_FOUND\<close>, when every
  \<^verbatim>\<open>write\<close> takes all its bytes, \<open>process_client_request\<close> sends the
  \<^verbatim>\<open>404 Not Found\<close> status line, then one \<^verbatim>\<open>Content-Type\<close> line (the type of the
  path's extension when \<open>file_map\<close> has it, the octet-stream line otherwise), then
  \<^verbatim>\<open>Content-Length: 0\<close> and the blank line, and no body; it closes the connection and
  returns.
\<close>

theorem not_found_response_has_content_type:
  assumes "sock_read client (BUFFER_SIZE - 1) = Some buffer"
    and "parse_request buffer = Inr request"
    and "snd (get_full_path fs webroot (URI request)) = NOT_FOUND"
    and "script client = []"
  shows "process_client_request BUFFER_SIZE webroot fs client =
     Inr (client\<lparr>sent := sent client @ httpversion request @ '' 404 Not Found'' @ [CR, LF]
                      @ content_type_line (webroot @ URI request)
                      @ ''Content-Length: 0'' @ [CR, LF, CR, LF],
                 closes := closes client + 1\<rparr>)"
  using assms by (rule not_found_response)

theorem not_found_response_has_content_type_witness:
  "process_client_request 1024 ''/srv/www'' example_fs
       (request_for (''GET /archive.zip HTTP/1.1'' @ [CR, LF])) =
     Inr \<lparr>inbound = Some (''GET /archive.zip HTTP/1.1'' @ [CR, LF]),
          sent = ''HTTP/1.1 404 Not Found'' @ [CR, LF]
                 @ ''Content-Type: application/octet-stream'' @ [CR, LF]
                 @ ''Content-Length: 0'' @ [CR, LF, CR, LF],
          script = [], closes = 1\<rparr>"
proof -
  let ?bytes = "''GET /archive.zip HTTP/1.1'' @ [CR, LF]"
  let ?req = "\<lparr>method = ''GET'', URI = ''/archive.zip'', httpversion = ''HTTP/1.1''\<rparr>"
  have h1: "sock_read (request_for ?bytes) (1024 - 1) = Some ?bytes"
    by (simp add: sock_read_def request_for_def)
  have h2: "parse_request ?bytes = Inr ?req"
    by (simp add: parse_request_def strtok_r_def Let_def)
  have h3: "snd (get_full_path example_fs ''/srv/www'' (URI ?req)) = NOT_FOUND"
    by (simp add: get_full_path_def access_F_OK_def example_fs_def)
  have h4: "script (request_for ?bytes) = []"
    by (simp add: request_for_def)
  have ct: "content_type_line (''/srv/www'' @ URI ?req) = not_supported"
    by (simp add: content_type_line_def file_map_def)
  note sent_404 = not_found_response_has_content_type
    [where fs = example_fs and webroot = "''/srv/www''", OF h1 h2 h3 h4, unfolded ct]
  then show ?thesis by (simp add: request_for_def not_supported_def)
qed

text \<open>
  The request \<^verbatim>\<open>GET /missing.html HTTP/1.1\<close> for an absent file: the response carries
  \<^verbatim>\<open>Content-Type: text/html\<close> between the status line and the length, so it is not
  the response of the claim.
\<close>

theorem missing_html_response_has_content_type:
  "process_client_request 1024 ''/srv/www'' example_fs
       (request_for (''GET /missing.html HTTP/1.1'' @ [CR, LF])) =
     Inr \<lparr>inbound = Some (''GET /missing.html HTTP/1.1'' @ [CR, LF]),
          sent = ''HTTP/1.1 404 Not Found'' @ [CR, LF] @ ''Content-Type: text/html'' @ [CR, LF]
                 @ ''Content-Length: 0'' @ [CR, LF, CR, LF],
          script = [], closes = 1\<rparr> \<and>
   ''HTTP/1.1 404 Not Found'' @ [CR, LF] @ ''Content-Type: text/html'' @ [CR, LF]
        @ ''Content-Length: 0'' @ [CR, LF, CR, LF]
     \<noteq> ''HTTP/1.1 404 Not Found'' @ [CR, LF] @ ''Content-Length: 0'' @ [CR, LF, CR, LF]"
proof -
  let ?bytes = "''GET /missing.html HTTP/1.1'' @ [CR, LF]"
  have h1: "sock_read (request_for ?bytes) (1024 - 1) = Some ?bytes"
    by (simp add: sock_read_def request_for_def)
  have h3: "snd (get_full_path example_fs ''/srv/www''
      (URI \<lparr>method = ''GET'', URI = ''/missing.html'', httpversion = ''HTTP/1.1''\<rparr>)) = NOT_FOUND"
    using missing_not_found by simp
  have h4: "script (request_for ?bytes) = []"
    by (simp add: request_for_def)
  have ct: "content_type_line (''/srv/www'' @
      URI \<lparr>method = ''GET'', URI = ''/missing.html'', httpversion = ''HTTP/1.1''\<rparr>)
        = ''Content-Type: text/html'' @ [CR, LF]"
    using content_type_line_missing by simp
  note sent_404 = not_found_response
    [where fs = example_fs and webroot = "''/srv/www''", OF h1 parse_missing h3 h4, unfolded ct]
  then show ?thesis by (simp add: request_for_def)
qed

subsection \<open>C3: a request line with a single token\<close>

text \<open>
  Claim C3 asks that a request line with fewer than three tokens be reported as a parse
  error from which the worker recovers. The code does not do so: on the request
  \<^verbatim>\<open>GET\<close> followed by CR LF, the \<^verbatim>\<open>strtok_r\<close> call for the URI returns \<^verbatim>\<open>NULL\<close>,
  which \<open>parse_request\<close> passes to \<^verbatim>\<open>strdup\<close>; \<open>process_client_request\<close> stops
  there with nothing sent and the connection not closed.
\<close>

theorem single_token_request_dereferences_null:
  "parse_request (''GET'' @ [CR, LF]) = Inl NULL_DEREFERENCE \<and>
   process_client_request 1024 ''/srv/www'' example_fs (request_for (''GET'' @ [CR, LF]))
     = Inl (NULL_DEREFERENCE, request_for (''GET'' @ [CR, LF]))"
proof -
  have p: "parse_request (''GET'' @ [CR, LF]) = Inl NULL_DEREFERENCE"
    by (simp add: parse_request_def strtok_r_def Let_def)
  have r: "sock_read (request_for (''GET'' @ [CR, LF])) (1024 - 1) = Some (''GET'' @ [CR, LF])"
    by (simp add: sock_read_def request_for_def)
  show ?thesis using p r by (simp add: process_client_request_def)
qed

subsection \<open>C4: when a path is found\<close>

text \<open>
  Claim C4 says that the verdict is \<^verbatim>\<open>FOUND\<close> exactly when the path has an extension,
  is readable and the extension is one of the four. As amended: \<open>get_full_path\<close>
  returns the concatenation of web root and URI, with \<^verbatim>\<open>FOUND\<close> exactly when that path
  ends in one of \<^verbatim>\<open>.html\<close>, \<^verbatim>\<open>.jpg\<close>, \<^verbatim>\<open>.css\<close>, \<^verbatim>\<open>.js\<close> (its part from the last dot
  on) and the path exists, and with \<^verbatim>\<open>NOT_FOUND\<close> otherwise. Whether the file may be
  read is not tested.
\<close>

theorem get_full_path_found_iff_exists:
  "get_full_path fs webroot uri =
     (webroot @ uri,
      if (\<exists>stem ext. webroot @ uri = stem @ ext \<and> ext \<in> {''.html'', ''.jpg'', ''.css'', ''.js''})
         \<and> fs (webroot @ uri) \<noteq> None
      then FOUND else NOT_FOUND)"
proof (cases "strrchr (webroot @ uri) CHR ''.''")
  case None
  then have "\<not> (\<exists>ext. strrchr (webroot @ uri) CHR ''.'' = Some ext \<and> supported_file ext)"
    by simp
  then have k: "(\<exists>stem ext. webroot @ uri = stem @ ext
      \<and> ext \<in> {''.html'', ''.jpg'', ''.css'', ''.js''}) \<longleftrightarrow> False"
    by (simp only: strrchr_supported_iff simp_thms)
  show ?thesis
    unfolding get_full_path_def Let_def k None option.case by simp
next
  case (Some e)
  then have "(\<exists>ext. strrchr (webroot @ uri) CHR ''.'' = Some ext \<and> supported_file ext)
      \<longleftrightarrow> supported_file e"
    by simp
  then have k: "(\<exists>stem ext. webroot @ uri = stem @ ext
      \<and> ext \<in> {''.html'', ''.jpg'', ''.css'', ''.js''}) \<longleftrightarrow> supported_file e"
    by (simp only: strrchr_supported_iff)
  show ?thesis
    unfolding get_full_path_def Let_def access_F_OK_def k Some option.case
    by (simp add: conj_commute)
qed

theorem get_full_path_found_iff_exists_witness:
  "get_full_path example_fs ''/srv/www'' ''/index.html'' = (''/srv/www/index.html'', FOUND) \<and>
   get_full_path example_fs ''/srv/www'' ''/missing.html'' = (''/srv/www/missing.html'', NOT_FOUND)"
proof
  have e: "\<exists>stem ext. ''/srv/www'' @ ''/index.html'' = stem @ ext
      \<and> ext \<in> {''.html'', ''.jpg'', ''.css'', ''.js''}"
    by (intro exI [of _ "''/srv/www/index''"] exI [of _ "''.html''"]) simp
  have f: "example_fs (''/srv/www'' @ ''/index.html'') \<noteq> None"
    by (simp add: example_fs_def)
  have "get_full_path example_fs ''/srv/www'' ''/index.html''
      = (''/srv/www'' @ ''/index.html'', FOUND)"
    unfolding get_full_path_found_iff_exists [of example_fs "''/srv/www''" "''/index.html''"]
    using e f by (simp only: simp_thms if_True)
  then show "get_full_path example_fs ''/srv/www'' ''/index.html''
      = (''/srv/www/index.html'', FOUND)"
    by simp
  have g: "example_fs (''/srv/www'' @ ''/missing.html'') = None"
    by (simp add: example_fs_def)
  have "get_full_path example_fs ''/srv/www'' ''/missing.html''
      = (''/srv/www'' @ ''/missing.html'', NOT_FOUND)"
    unfolding get_full_path_found_iff_exists [of example_fs "''/srv/www''" "''/missing.html''"]
    using g by (simp only: simp_thms if_False)
  then show "get_full_path example_fs ''/srv/www'' ''/missing.html''
      = (''/srv/www/missing.html'', NOT_FOUND)"
    by simp
qed

text \<open>
  A page that exists and may not be opened for reading is \<^verbatim>\<open>FOUND\<close>.
\<close>

theorem unreadable_file_is_found:
  "snd (get_full_path example_fs ''/srv/www'' ''/secret.html'') = FOUND \<and>
   fopen_rb example_fs (''/srv/www'' @ ''/secret.html'') = None"
  by (simp add: get_full_path_def access_F_OK_def example_fs_def supported_file_iff
      fopen_rb_def)

subsection \<open>C5: a file that delivers fewer bytes than its probed size\<close>

text \<open>
  Claim C5. For a found request whose file delivers a number of bytes other than the size
  reported at the probe, \<open>read_write_file\<close> writes nothing, neither a
  \<^verbatim>\<open>Content-Length\<close> header nor a body: when every \<^verbatim>\<open>write\<close> takes all its bytes the
  bytes sent are the status line and the content type only, and
  \<open>process_client_request\<close> closes the connection and returns, as for a failure of
  this one connection.
\<close>

theorem short_read_sends_no_length_and_no_body:
  assumes "sock_read client (BUFFER_SIZE - 1) = Some buffer"
    and "parse_request buffer = Inr request"
    and "URI request = name @ extension fp"
    and "fp \<in> set file_map"
    and "fs (webroot @ name @ extension fp) = Some f"
    and "readable f"
    and "length (take (probe_size f) (fread_data f)) \<noteq> probe_size f"
    and "script client = []"
  shows "get_full_path fs webroot (URI request) = (webroot @ URI request, FOUND) \<and>
         read_write_file fs c (webroot @ URI request) = Inr c \<and>
         process_client_request BUFFER_SIZE webroot fs client =
           Inr (client\<lparr>sent := sent client @ httpversion request @ '' 200 OK'' @ [CR, LF]
                           @ ''Content-Type: '' @ mime_type fp @ [CR, LF],
                      closes := closes client + 1\<rparr>)"
proof (intro conjI)
  let ?path = "webroot @ name @ extension fp"
  show status: "get_full_path fs webroot (URI request) = (webroot @ URI request, FOUND)"
    using assms(4,5) by (simp add: assms(3) get_full_path_found)
  show "read_write_file fs c (webroot @ URI request) = Inr c"
    using assms(5,6,7) by (simp add: assms(3) read_write_file_short)
  have ct: "content_type_line ?path = ''Content-Type: '' @ mime_type fp @ [CR, LF]"
    using content_type_line_extension [OF assms(4), of "webroot @ name"] by simp
  let ?c1 = "client\<lparr>sent := sent client @ httpversion request @ '' 200 OK'' @ [CR, LF]
                      @ ''Content-Type: '' @ mime_type fp @ [CR, LF]\<rparr>"
  have hdr: "construct_file_response client (httpversion request) ?path found = Inr ?c1"
    using assms(8) by (simp add: construct_file_response_all sprintf_found ct)
  have body: "read_write_file fs ?c1 ?path = Inr ?c1"
    using assms(5,6,7) by (rule read_write_file_short)
  show "process_client_request BUFFER_SIZE webroot fs client =
           Inr (client\<lparr>sent := sent client @ httpversion request @ '' 200 OK'' @ [CR, LF]
                           @ ''Content-Type: '' @ mime_type fp @ [CR, LF],
                      closes := closes client + 1\<rparr>)"
    using status hdr body
    by (simp add: process_client_request_parsed [OF assms(1,2)] assms(3) sock_close_def)
qed

theorem short_read_sends_no_length_and_no_body_witness:
  "process_client_request 1024 ''/srv/www'' example_fs
       (request_for (''GET /cut.js HTTP/1.1'' @ [CR, LF])) =
     Inr \<lparr>inbound = Some (''GET /cut.js HTTP/1.1'' @ [CR, LF]),
          sent = ''HTTP/1.1 200 OK'' @ [CR, LF] @ ''Content-Type: text/javascript'' @ [CR, LF],
          script = [], closes = 1\<rparr>"
proof -
  let ?bytes = "''GET /cut.js HTTP/1.1'' @ [CR, LF]"
  let ?req = "\<lparr>method = ''GET'', URI = ''/cut.js'', httpversion = ''HTTP/1.1''\<rparr>"
  let ?fp = "\<lparr>extension = ''.js'', mime_type = ''text/javascript''\<rparr>"
  let ?f = "\<lparr>readable = True, probe_size = 9, fread_data = ''var''\<rparr>"
  have h1: "sock_read (request_for ?bytes) (1024 - 1) = Some ?bytes"
    by (simp add: sock_read_def request_for_def)
  have h2: "parse_request ?bytes = Inr ?req"
    by (simp add: parse_request_def strtok_r_def Let_def)
  have h3: "URI ?req = ''/cut'' @ extension ?fp" by simp
  have h4: "?fp \<in> set file_map" by (simp add: file_map_def)
  have h5: "example_fs (''/srv/www'' @ ''/cut'' @ extension ?fp) = Some ?f"
    by (simp add: example_fs_def)
  have h6: "readable ?f" by simp
  have h7: "length (take (probe_size ?f) (fread_data ?f)) \<noteq> probe_size ?f" by simp
  have h8: "script (request_for ?bytes) = []" by (simp add: request_for_def)
  from short_read_sends_no_length_and_no_body
    [where fs = example_fs and webroot = "''/srv/www''", OF h1 h2 h3 h4 h5 h6 h7 h8]
  show ?thesis by (simp add: request_for_def)
qed

subsection \<open>C6: closing the connection\<close>

text \<open>
  Claim C6 says that the connection is closed exactly once on every exit path. As amended:
  on every path on which \<open>process_client_request\<close> returns, it has closed the
  connection exactly once; on a path that ends in \<^verbatim>\<open>exit(EXIT_FAILURE)\<close> (a failed
  \<^verbatim>\<open>read\<close>, a failed checked \<^verbatim>\<open>write\<close>, a failed \<^verbatim>\<open>fopen\<close>) it has not closed it.
\<close>

theorem closed_once_exactly_when_returning:
  "(case process_client_request BUFFER_SIZE webroot fs client of
      Inl (s, c) \<Rightarrow> closes c = closes client
    | Inr c \<Rightarrow> closes c = closes client + 1)"
  using closes_process_client_request [of BUFFER_SIZE webroot fs client]
  by (simp add: final_conn_def split: sum.splits prod.splits)

theorem closed_once_exactly_when_returning_witness:
  "closes (final_conn (process_client_request 1024 ''/srv/www'' example_fs
       (request_for (''GET /missing.html HTTP/1.1'' @ [CR, LF])))) = 1"
proof -
  let ?bytes = "''GET /missing.html HTTP/1.1'' @ [CR, LF]"
  let ?req = "\<lparr>method = ''GET'', URI = ''/missing.html'', httpversion = ''HTTP/1.1''\<rparr>"
  have h1: "sock_read (request_for ?bytes) (1024 - 1) = Some ?bytes"
    by (simp add: sock_read_def request_for_def)
  have h3: "snd (get_full_path example_fs ''/srv/www'' (URI ?req)) = NOT_FOUND"
    using missing_not_found by simp
  have h4: "script (request_for ?bytes) = []"
    by (simp add: request_for_def)
  from not_found_response
    [where fs = example_fs and webroot = "''/srv/www''", OF h1 parse_missing h3 h4]
  obtain c where r: "process_client_request 1024 ''/srv/www'' example_fs (request_for ?bytes)
      = Inr c"
    by blast
  from closed_once_exactly_when_returning
    [where BUFFER_SIZE = 1024 and webroot = "''/srv/www''" and fs = example_fs
       and client = "request_for ?bytes"] r
  have "closes c = closes (request_for ?bytes) + 1" by simp
  with r show ?thesis by (simp add: final_conn_def request_for_def)
qed

text \<open>
  A connection on which \<^verbatim>\<open>read\<close> fails: the handler ends in \<^verbatim>\<open>exit(EXIT_FAILURE)\<close> and
  the count of \<^verbatim>\<open>close\<close> calls is still 0.
\<close>

theorem read_failure_leaves_connection_open:
  "process_client_request 1024 ''/srv/www'' example_fs
       \<lparr>inbound = None, sent = [], script = [], closes = 0\<rparr>
     = Inl (EXIT_FAILURE, \<lparr>inbound = None, sent = [], script = [], closes = 0\<rparr>)"
  by (simp add: process_client_request_def sock_read_def)

subsection \<open>C7: a failing read or write\<close>

text \<open>
  Claim C7 says that a failure of \<^verbatim>\<open>read\<close> or \<^verbatim>\<open>write\<close> stays with its connection. As
  amended: a failure of \<^verbatim>\<open>read\<close>, and a failure of the \<^verbatim>\<open>write\<close> of the status line
  (the first \<^verbatim>\<open>write\<close> of every response), end the whole process through
  \<^verbatim>\<open>exit(EXIT_FAILURE)\<close>, with nothing sent and the connection not closed by the
  handler.
\<close>

theorem io_failure_exits_process:
  "(sock_read client (BUFFER_SIZE - 1) = None \<longrightarrow>
      process_client_request BUFFER_SIZE webroot fs client = Inl (EXIT_FAILURE, client)) \<and>
   (sock_read client (BUFFER_SIZE - 1) = Some buffer \<and> parse_request buffer = Inr request \<and>
    script client = WRITE_ERROR # rs \<longrightarrow>
      process_client_request BUFFER_SIZE webroot fs client
        = Inl (EXIT_FAILURE, client\<lparr>script := rs\<rparr>))"
  by (auto simp: first_write_failure_exits) (simp add: process_client_request_def)

theorem io_failure_exits_process_witness:
  "process_client_request 1024 ''/srv/www'' example_fs
       \<lparr>inbound = None, sent = [], script = [], closes = 0\<rparr>
     = Inl (EXIT_FAILURE, \<lparr>inbound = None, sent = [], script = [], closes = 0\<rparr>) \<and>
   process_client_request 1024 ''/srv/www'' example_fs
       \<lparr>inbound = Some (''GET /index.html HTTP/1.1'' @ [CR, LF]), sent = [],
        script = [WRITE_ERROR], closes = 0\<rparr>
     = Inl (EXIT_FAILURE,
         \<lparr>inbound = Some (''GET /index.html HTTP/1.1'' @ [CR, LF]), sent = [],
          script = [], closes = 0\<rparr>)"
proof
  let ?c = "\<lparr>inbound = None, sent = [], script = [], closes = 0\<rparr>"
  have "sock_read ?c (1024 - 1) = None" by (simp add: sock_read_def)
  with io_failure_exits_process
    [where client = ?c and BUFFER_SIZE = 1024 and webroot = "''/srv/www''" and fs = example_fs,
      THEN conjunct1]
  show "process_client_request 1024 ''/srv/www'' example_fs ?c = Inl (EXIT_FAILURE, ?c)"
    by simp
next
  let ?bytes = "''GET /index.html HTTP/1.1'' @ [CR, LF]"
  let ?c = "\<lparr>inbound = Some ?bytes, sent = [], script = [WRITE_ERROR], closes = 0\<rparr>"
  let ?req = "\<lparr>method = ''GET'', URI = ''/index.html'', httpversion = ''HTTP/1.1''\<rparr>"
  have h1: "sock_read ?c (1024 - 1) = Some ?bytes" by (simp add: sock_read_def)
  have h2: "parse_request ?bytes = Inr ?req"
    by (simp add: parse_request_def strtok_r_def Let_def)
  have h3: "script ?c = WRITE_ERROR # []" by simp
  from io_failure_exits_process
    [where client = ?c and BUFFER_SIZE = 1024 and webroot = "''/srv/www''" and fs = example_fs
       and buffer = ?bytes and request = ?req and rs = "[]", THEN conjunct2] h1 h2 h3
  show "process_client_request 1024 ''/srv/www'' example_fs ?c
     = Inl (EXIT_FAILURE, \<lparr>inbound = Some ?bytes, sent = [], script = [], closes = 0\<rparr>)"
    by simp
qed

text \<open>
  A request for the existing page on a connection whose second \<^verbatim>\<open>write\<close>, the content
  type, fails: the process exits after the status line.
\<close>

theorem header_write_failure_ends_process:
  "process_client_request 1024 ''/srv/www'' example_fs
       \<lparr>inbound = Some (''GET /index.html HTTP/1.1'' @ [CR, LF]), sent = [],
        script = [WRITTEN 17, WRITE_ERROR], closes = 0\<rparr>
     = Inl (EXIT_FAILURE,
         \<lparr>inbound = Some (''GET /index.html HTTP/1.1'' @ [CR, LF]),
          sent = ''HTTP/1.1 200 OK'' @ [CR, LF], script = [], closes = 0\<rparr>)"
proof -
  let ?bytes = "''GET /index.html HTTP/1.1'' @ [CR, LF]"
  let ?c = "\<lparr>inbound = Some ?bytes, sent = [], script = [WRITTEN 17, WRITE_ERROR], closes = 0\<rparr>"
  let ?req = "\<lparr>method = ''GET'', URI = ''/index.html'', httpversion = ''HTTP/1.1''\<rparr>"
  have h1: "sock_read ?c (1024 - 1) = Some ?bytes" by (simp add: sock_read_def)
  have h2: "parse_request ?bytes = Inr ?req"
    by (simp add: parse_request_def strtok_r_def Let_def)
  have st: "get_full_path example_fs ''/srv/www'' (URI ?req) = (''/srv/www/index.html'', FOUND)"
    by (simp add: get_full_path_def access_F_OK_def example_fs_def supported_file_iff)
  have hdr: "construct_file_response ?c (httpversion ?req) (''/srv/www'' @ URI ?req) found
      = Inl (EXIT_FAILURE, \<lparr>inbound = Some ?bytes, sent = ''HTTP/1.1 200 OK'' @ [CR, LF],
               script = [], closes = 0\<rparr>)"
    by (simp add: construct_file_response_def write_headers_def sock_write_def sprintf_found
        sprintf_content_header file_map_def)
  from process_client_request_parsed [OF h1 h2, of "''/srv/www''" example_fs] st hdr
  show ?thesis by simp
qed

subsection \<open>C8: the HTTP version of a parsed request\<close>

text \<open>
  Claim C8 says that the version is the third token of the first line without its line
  terminator. As amended: for a request whose first line is a method, one blank, a URI, one
  blank, a version, CR and LF, where method and URI are non-empty and hold neither blank
  nor LF, the field \<open>httpversion\<close> is the version: all of the line behind the blank
  that ends the URI, without its last character. It is the third token when the version
  holds no further blank.
\<close>

theorem httpversion_is_rest_of_line:
  assumes "m \<noteq> []" and "CHR '' '' \<notin> set m" and "LF \<notin> set m"
    and "u \<noteq> []" and "CHR '' '' \<notin> set u" and "LF \<notin> set u"
    and "LF \<notin> set v"
  shows "parse_request (m @ '' '' @ u @ '' '' @ v @ [CR, LF] @ tail_bytes)
           = Inr \<lparr>method = m, URI = u, httpversion = v\<rparr>"
  using assms by (rule parse_request_line)

theorem httpversion_is_rest_of_line_witness:
  "parse_request (''GET'' @ '' '' @ ''/index.html'' @ '' '' @ ''HTTP/1.1'' @ [CR, LF]
                  @ (''Host: example'' @ [CR, LF]))
     = Inr \<lparr>method = ''GET'', URI = ''/index.html'', httpversion = ''HTTP/1.1''\<rparr>"
  by (rule httpversion_is_rest_of_line) simp_all

text \<open>
  A request line with a fourth token parses, and its \<open>httpversion\<close> holds the third
  and the fourth token with the blank between them.
\<close>

theorem httpversion_not_third_token:
  "parse_request (''GET /a HTTP/1.1 x'' @ [CR, LF])
     = Inr \<lparr>method = ''GET'', URI = ''/a'', httpversion = ''HTTP/1.1 x''\<rparr> \<and>
   spec_httpversion (''GET /a HTTP/1.1 x'' @ [CR, LF]) = Some ''HTTP/1.1'' \<and>
   Some (httpversion \<lparr>method = ''GET'', URI = ''/a'', httpversion = ''HTTP/1.1 x''\<rparr>)
     \<noteq> spec_httpversion (''GET /a HTTP/1.1 x'' @ [CR, LF])"
proof -
  have p: "parse_request (''GET /a HTTP/1.1 x'' @ [CR, LF])
     = Inr \<lparr>method = ''GET'', URI = ''/a'', httpversion = ''HTTP/1.1 x''\<rparr>"
    by (simp add: parse_request_def strtok_r_def Let_def)
  have t: "spec_httpversion (''GET /a HTTP/1.1 x'' @ [CR, LF]) = Some ''HTTP/1.1''"
    by (simp add: spec_httpversion_def spec_first_line_def spec_whitespace_def spec_trim_terminator_def
        Let_def)
  show ?thesis using p t by simp
qed

subsection \<open>C10: a file of length zero\<close>

text \<open>
  Claim C10. For a found request whose file is zero bytes long at the size probe,
  \<open>get_length_bytes\<close> returns 0 for the length, yet \<open>write_content_length\<close> writes the
  header \<^verbatim>\<open>Content-Length: 0\<close>, and the whole response is the status line, the content
  type, that header and the blank line, with no body byte after it.
\<close>

theorem empty_file_served_with_length_zero:
  assumes "sock_read client (BUFFER_SIZE - 1) = Some buffer"
    and "parse_request buffer = Inr request"
    and "URI request = name @ extension fp"
    and "fp \<in> set file_map"
    and "fs (webroot @ name @ extension fp) = Some f"
    and "readable f"
    and "probe_size f = 0"
    and "script client = []"
  shows "get_length_bytes (probe_size f) = 0 \<and>
         write_content_length client (probe_size f) =
           Inr (client\<lparr>sent := sent client @ ''Content-Length: 0'' @ [CR, LF, CR, LF]\<rparr>) \<and>
         process_client_request BUFFER_SIZE webroot fs client =
           Inr (client\<lparr>sent := sent client @ httpversion request @ '' 200 OK'' @ [CR, LF]
                           @ ''Content-Type: '' @ mime_type fp @ [CR, LF]
                           @ ''Content-Length: 0'' @ [CR, LF, CR, LF],
                      closes := closes client + 1\<rparr>)"
proof (intro conjI)
  have d: "decimal 0 = ''0''" by (simp add: decimal.simps digit_def)
  show "get_length_bytes (probe_size f) = 0"
    by (simp add: assms(7) get_length_bytes_def get_length_loop.simps)
  show "write_content_length client (probe_size f) =
           Inr (client\<lparr>sent := sent client @ ''Content-Length: 0'' @ [CR, LF, CR, LF]\<rparr>)"
    using assms(8) by (simp add: assms(7) write_content_length_all d)
  have "probe_size f \<le> length (fread_data f)" using assms(7) by simp
  from found_response [where fs = fs and webroot = webroot, OF assms(1-6) this assms(8)]
  show "process_client_request BUFFER_SIZE webroot fs client =
           Inr (client\<lparr>sent := sent client @ httpversion request @ '' 200 OK'' @ [CR, LF]
                           @ ''Content-Type: '' @ mime_type fp @ [CR, LF]
                           @ ''Content-Length: 0'' @ [CR, LF, CR, LF],
                      closes := closes client + 1\<rparr>)"
    by (simp add: assms(7) d)
qed

theorem empty_file_served_with_length_zero_witness:
  "get_length_bytes 0 = 0 \<and>
   process_client_request 1024 ''/srv/www'' example_fs
       (request_for (''GET /empty.css HTTP/1.1'' @ [CR, LF])) =
     Inr \<lparr>inbound = Some (''GET /empty.css HTTP/1.1'' @ [CR, LF]),
          sent = ''HTTP/1.1 200 OK'' @ [CR, LF] @ ''Content-Type: text/css'' @ [CR, LF]
                 @ ''Content-Length: 0'' @ [CR, LF, CR, LF],
          script = [], closes = 1\<rparr>"
proof -
  let ?req = "\<lparr>method = ''GET'', URI = ''/empty.css'', httpversion = ''HTTP/1.1''\<rparr>"
  let ?fp = "\<lparr>extension = ''.css'', mime_type = ''text/css''\<rparr>"
  let ?f = "\<lparr>readable = True, probe_size = 0, fread_data = []\<rparr>"
  have h1: "sock_read (request_for (''GET /empty.css HTTP/1.1'' @ [CR, LF])) (1024 - 1)
      = Some (''GET /empty.css HTTP/1.1'' @ [CR, LF])"
    by (simp add: sock_read_def request_for_def)
  have h2: "parse_request (''GET /empty.css HTTP/1.1'' @ [CR, LF]) = Inr ?req"
    by (simp add: parse_request_def strtok_r_def Let_def)
  have h3: "URI ?req = ''/empty'' @ extension ?fp" by simp
  have h4: "?fp \<in> set file_map" by (simp add: file_map_def)
  have h5: "example_fs (''/srv/www'' @ ''/empty'' @ extension ?fp) = Some ?f"
    by (simp add: example_fs_def)
  have h6: "readable ?f" by simp
  have h7: "probe_size ?f = 0" by simp
  have h8: "script (request_for (''GET /empty.css HTTP/1.1'' @ [CR, LF])) = []"
    by (simp add: request_for_def)
  from empty_file_served_with_length_zero
    [where fs = example_fs and webroot = "''/srv/www''", OF h1 h2 h3 h4 h5 h6 h7 h8]
  show ?thesis by (simp add: request_for_def)
qed

end
